theory Spec2Isabelle
  imports Complex_Main "HOL-Library.Word" "HOL-Library.Sublist"
begin

section \<open>The Scrypted bridge\<close>

text \<open>
  Source: \<^verbatim>\<open>src/scrypted_bridge.py\<close>.
  The bridge keeps one module-level dictionary \<^verbatim>\<open>scrypted_state\<close>. Socket.IO event
  handlers, running on the asyncio thread, write to it; the HTTP handler \<^verbatim>\<open>do_GET\<close>
  reads it. This theory embeds the handlers, the HTTP handler, the login function and the
  control flow of \<^verbatim>\<open>connect_socketio\<close> and \<^verbatim>\<open>main\<close> as HOL functions: the
  dictionary is a record that is passed in and returned, everything received from the network
  is an argument, and every exception the Python can raise is a value of \<open>pyexc\<close>.
\<close>

subsection \<open>JSON values and Python dictionaries\<close>

text \<open>
  What \<^verbatim>\<open>json.loads\<close> and the Socket.IO client deliver. Numbers are opaque to the bridge
  (it never computes with them), so one constructor over the rationals stands for them.
  A Python \<^verbatim>\<open>dict\<close> keeps its keys in insertion order, and that order is what
  \<^verbatim>\<open>.values()\<close> and \<^verbatim>\<open>json.dumps\<close> follow, so a dictionary is an association list.
  The keys of a Python dictionary are distinct; no theorem below needs that of the
  dictionaries the hub sends, and the device store keeps its keys distinct by itself.
\<close>

datatype json =
    JNull
  | JBool bool
  | JNum rat
  | JStr string
  | JList "json list"
  | JDict "(string \<times> json) list"

type_synonym pydict = "(string \<times> json) list"

type_synonym byte = "8 word"

datatype http_message =
    MsgJson json
  | MsgHttp nat
  | MsgHttpBody nat string

datatype pyexc =
    PyException http_message
  | TypeError
  | AttributeError
  | IndexError
  | KeyError
  | ValueError
  | JSONDecodeError
  | OtherError string

text \<open>
  \<^verbatim>\<open>d[k] = v\<close>: an existing key keeps its position and gets the new value, a new key is
  appended.
\<close>

fun dict_set :: "('k \<times> 'v) list \<Rightarrow> 'k \<Rightarrow> 'v \<Rightarrow> ('k \<times> 'v) list" where
  "dict_set [] k v = [(k, v)]"
| "dict_set ((k', v') # kvs) k v =
     (if k' = k then (k, v) # kvs else (k', v') # dict_set kvs k v)"

text \<open>\<^verbatim>\<open>d.get(k)\<close> is \<^const>\<open>map_of\<close>; \<^verbatim>\<open>d.values()\<close> is \<open>map snd\<close>.\<close>

text \<open>
  \<^verbatim>\<open>s in x\<close> for a string \<open>s\<close>: membership in a list, substring of a string, key of a
  dictionary, and \<^verbatim>\<open>TypeError\<close> for \<^verbatim>\<open>None\<close>, booleans and numbers.
\<close>

fun py_in :: "string \<Rightarrow> json \<Rightarrow> pyexc + bool" where
  "py_in s (JList xs) = Inr (JStr s \<in> set xs)"
| "py_in s (JStr t) = Inr (sublist s t)"
| "py_in s (JDict kvs) = Inr (s \<in> fst ` set kvs)"
| "py_in s JNull = Inl TypeError"
| "py_in s (JBool b) = Inl TypeError"
| "py_in s (JNum n) = Inl TypeError"

subsection \<open>The global state\<close>

record bridge_state =
  devices :: "(string \<times> pydict) list"
  connected :: bool
  token :: "string option"
  host :: "string option"
  last_update :: rat

definition scrypted_state :: bridge_state where
  "scrypted_state =
     \<lparr>devices = [], connected = False, token = None, host = None, last_update = 0\<rparr>"

subsection \<open>Socket.IO event handlers\<close>

text \<open>
  The body of the inner loop of \<^verbatim>\<open>on_system_state\<close>: a value that is not a dictionary is
  skipped; a dictionary gets its \<^verbatim>\<open>id\<close> set and is stored under the device id.
\<close>

definition upsert_device :: "bridge_state \<Rightarrow> string \<times> json \<Rightarrow> bridge_state" where
  "upsert_device s item =
     (case item of (device_id, device_info) \<Rightarrow>
        (case device_info of
           JDict info \<Rightarrow>
             s\<lparr>devices := dict_set (devices s) device_id (dict_set info ''id'' (JStr device_id))\<rparr>
         | _ \<Rightarrow> s))"

text \<open>\<open>now\<close> is what \<^verbatim>\<open>time.time()\<close> returns when the handler runs.\<close>

definition on_system_state :: "bridge_state \<Rightarrow> json \<Rightarrow> rat \<Rightarrow> bridge_state" where
  "on_system_state s data now =
     (case data of
        JDict items \<Rightarrow> (foldl upsert_device s items)\<lparr>last_update := now\<rparr>
      | _ \<Rightarrow> s)"

text \<open>
  The hub's \<^verbatim>\<open>stateChange\<close> event carries a device id and a property name, both strings
  (the keys of the store and of a record are the keys of JSON objects), and a JSON value.
\<close>

definition on_state_change :: "bridge_state \<Rightarrow> string \<Rightarrow> string \<Rightarrow> json \<Rightarrow> bridge_state" where
  "on_state_change s device_id property_name val =
     (case map_of (devices s) device_id of
        None \<Rightarrow> s
      | Some record \<Rightarrow>
          s\<lparr>devices := dict_set (devices s) device_id (dict_set record property_name val)\<rparr>)"

definition connect :: "bridge_state \<Rightarrow> bridge_state" where
  "connect s = s\<lparr>connected := True\<rparr>"

definition disconnect :: "bridge_state \<Rightarrow> bridge_state" where
  "disconnect s = s\<lparr>connected := False\<rparr>"

datatype event =
    Connect
  | Disconnect
  | SystemState json rat
  | StateChange string string json

fun handle_event :: "bridge_state \<Rightarrow> event \<Rightarrow> bridge_state" where
  "handle_event s Connect = connect s"
| "handle_event s Disconnect = disconnect s"
| "handle_event s (SystemState data now) = on_system_state s data now"
| "handle_event s (StateChange device_id property_name val) =
     on_state_change s device_id property_name val"

definition run_events :: "bridge_state \<Rightarrow> event list \<Rightarrow> bridge_state" where
  "run_events s es = foldl handle_event s es"

subsection \<open>The store as the specification describes it\<close>

text \<open>
  The specification's State Store is a mapping from device id to a record, a record being a
  mapping from property name to value. \<open>store_of\<close> reads the bridge's dictionaries as such
  mappings. \<open>spec_upsert\<close>, \<open>spec_apply\<close> and \<open>spec_fold\<close> follow the specification's
  words: a full-snapshot entry installs the entry's attribute mapping with its id set, an
  incremental event overwrites one property of a record that exists and is dropped otherwise.
\<close>

type_synonym spec_record = "string \<rightharpoonup> json"
type_synonym spec_store = "string \<rightharpoonup> spec_record"

definition store_of :: "bridge_state \<Rightarrow> spec_store" where
  "store_of s = (\<lambda>k. map_option map_of (map_of (devices s) k))"

definition spec_upsert :: "spec_store \<Rightarrow> string \<times> json \<Rightarrow> spec_store" where
  "spec_upsert m item =
     (case item of (k, v) \<Rightarrow>
        (case v of JDict attrs \<Rightarrow> m(k \<mapsto> (map_of attrs)(''id'' \<mapsto> JStr k)) | _ \<Rightarrow> m))"

fun spec_apply :: "spec_store \<Rightarrow> event \<Rightarrow> spec_store" where
  "spec_apply m (SystemState data now) =
     (case data of JDict items \<Rightarrow> foldl spec_upsert m items | _ \<Rightarrow> m)"
| "spec_apply m (StateChange k p v) =
     (case m k of None \<Rightarrow> m | Some r \<Rightarrow> m(k \<mapsto> r(p \<mapsto> v)))"
| "spec_apply m Connect = m"
| "spec_apply m Disconnect = m"

definition spec_fold :: "event list \<Rightarrow> spec_store" where
  "spec_fold es = foldl spec_apply Map.empty es"

text \<open>
  The specification's invariant on records: the \<^verbatim>\<open>id\<close> field of the record stored under a
  key is that key.
\<close>

definition id_matches_key :: "bridge_state \<Rightarrow> bool" where
  "id_matches_key s =
     list_all (\<lambda>k. case map_of (devices s) k of
                      None \<Rightarrow> True
                    | Some r \<Rightarrow> map_of r ''id'' = Some (JStr k))
              (map fst (devices s))"

subsection \<open>The HTTP handler\<close>

text \<open>
  A response is what \<^verbatim>\<open>send_json\<close> or \<^verbatim>\<open>send_binary\<close> writes: the status, the content
  type and the body. The JSON body is kept as the value given to \<^verbatim>\<open>json.dumps\<close>.
\<close>

datatype body = JsonBody json | BytesBody "byte list"

datatype response = Response nat string body

definition send_json :: "json \<Rightarrow> nat \<Rightarrow> response" where
  "send_json data status = Response status ''application/json'' (JsonBody data)"

definition send_binary :: "byte list \<Rightarrow> response" where
  "send_binary data = Response 200 ''image/jpeg'' (BytesBody data)"

text \<open>\<^verbatim>\<open>s.split(c)\<close> for a one-character separator: never empty, \<^verbatim>\<open>''.split('/') == ['']\<close>.\<close>

primrec py_split :: "char \<Rightarrow> string \<Rightarrow> string list" where
  "py_split c [] = [[]]"
| "py_split c (x # xs) =
     (if x = c then [] # py_split c xs
      else (case py_split c xs of [] \<Rightarrow> [[x]] | w # ws \<Rightarrow> (x # w) # ws))"

text \<open>\<^verbatim>\<open>xs[i]\<close> for \<open>i \<ge> 0\<close>: \<^verbatim>\<open>IndexError\<close> out of range.\<close>

definition py_index :: "'a list \<Rightarrow> nat \<Rightarrow> pyexc + 'a" where
  "py_index xs i = (if i < length xs then Inr (xs ! i) else Inl IndexError)"

text \<open>How an f-string prints a value that is \<^verbatim>\<open>None\<close> or a string.\<close>

definition fstr :: "string option \<Rightarrow> string" where
  "fstr x = (case x of None \<Rightarrow> ''None'' | Some s \<Rightarrow> s)"

text \<open>
  \<^verbatim>\<open>fetch_with_cookie(url, cookie)\<close> reads from the hub: its result, the bytes read or
  the exception raised, is given by the environment.
\<close>

type_synonym fetcher = "string \<Rightarrow> string \<Rightarrow> pyexc + byte list"

definition snapshot_urls :: "string option \<Rightarrow> string option \<Rightarrow> string \<Rightarrow> string list" where
  "snapshot_urls h t device_id =
     [fstr h @ ''/endpoint/@scrypted/core/api/'' @ fstr t @ ''/device/'' @ device_id
        @ ''/Camera.getSnapshot'',
      fstr h @ ''/endpoint/@scrypted/snapshot/public/'' @ device_id]"

text \<open>
  The loop over \<^verbatim>\<open>snapshot_urls\<close>, with the final \<^verbatim>\<open>send_json\<close> that follows it. Every
  exception of the fetch is caught and the next URL is tried. Writing the response to the
  client is taken to succeed.
\<close>

fun try_snapshot_urls :: "fetcher \<Rightarrow> string \<Rightarrow> string list \<Rightarrow> response" where
  "try_snapshot_urls fetch_with_cookie cookie [] =
     send_json (JDict [(''error'', JStr ''Could not fetch snapshot'')]) 500"
| "try_snapshot_urls fetch_with_cookie cookie (url # urls) =
     (case fetch_with_cookie url cookie of
        Inl e \<Rightarrow> try_snapshot_urls fetch_with_cookie cookie urls
      | Inr data \<Rightarrow>
          if data \<noteq> [] \<and> length data > 100 then send_binary data
          else try_snapshot_urls fetch_with_cookie cookie urls)"

definition fetch_snapshot ::
  "fetcher \<Rightarrow> string option \<Rightarrow> string option \<Rightarrow> string \<Rightarrow> response" where
  "fetch_snapshot fetch_with_cookie h t device_id =
     try_snapshot_urls fetch_with_cookie (''login_user_token='' @ fstr t)
       (snapshot_urls h t device_id)"

text \<open>
  The condition of the \<^verbatim>\<open>/cameras\<close> comprehension:
  \<^verbatim>\<open>'Camera' in d.get('interfaces', []) or 'VideoCamera' in d.get('interfaces', [])\<close>.
\<close>

definition is_camera :: "pydict \<Rightarrow> pyexc + bool" where
  "is_camera d =
     (let interfaces = (case map_of d ''interfaces'' of None \<Rightarrow> JList [] | Some v \<Rightarrow> v) in
      case py_in ''Camera'' interfaces of
        Inl e \<Rightarrow> Inl e
      | Inr True \<Rightarrow> Inr True
      | Inr False \<Rightarrow> py_in ''VideoCamera'' interfaces)"

fun filter_cameras :: "pydict list \<Rightarrow> pyexc + pydict list" where
  "filter_cameras [] = Inr []"
| "filter_cameras (d # ds) =
     (case is_camera d of
        Inl e \<Rightarrow> Inl e
      | Inr b \<Rightarrow>
          (case filter_cameras ds of
             Inl e \<Rightarrow> Inl e
           | Inr cs \<Rightarrow> Inr (if b then d # cs else cs)))"

text \<open>
  The path component of \<^verbatim>\<open>urlparse(self.path)\<close>, as \<^verbatim>\<open>urllib.parse\<close> computes it:
  leading control characters and spaces are stripped and tabs, carriage returns and line
  feeds are removed; a scheme and, after \<^verbatim>\<open>//\<close>, an authority are split off; the rest is
  cut at the first \<^verbatim>\<open>#\<close>, then at the first \<^verbatim>\<open>?\<close>, and the parameters after a \<^verbatim>\<open>;\<close>
  in its last segment are dropped. Nothing is percent-decoded. An authority with only one
  of \<^verbatim>\<open>[\<close> and \<^verbatim>\<open>]\<close> raises \<^verbatim>\<open>ValueError\<close>; the library's further checks of a host
  in brackets are not part of this model.
\<close>

definition c0_control_or_space :: "char \<Rightarrow> bool" where
  "c0_control_or_space c = (of_char c \<le> (32 :: nat))"

definition unsafe_url_byte :: "char \<Rightarrow> bool" where
  "unsafe_url_byte c = (c \<in> set [CHR 0x09, CHR 0x0D, CHR 0x0A])"

definition ascii_alpha :: "char \<Rightarrow> bool" where
  "ascii_alpha c = (c \<in> set ''abcdefghijklmnopqrstuvwxyzABCDEFGHIJKLMNOPQRSTUVWXYZ'')"

definition scheme_char :: "char \<Rightarrow> bool" where
  "scheme_char c =
     (c \<in> set ''abcdefghijklmnopqrstuvwxyzABCDEFGHIJKLMNOPQRSTUVWXYZ0123456789+-.'')"

definition ascii_lower :: "char \<Rightarrow> char" where
  "ascii_lower c =
     (if c \<in> set ''ABCDEFGHIJKLMNOPQRSTUVWXYZ'' then char_of (of_char c + (32 :: nat)) else c)"

definition uses_params :: "string list" where
  "uses_params = [[], ''ftp'', ''hdl'', ''prospero'', ''http'', ''imap'', ''https'', ''shttp'',
                  ''rtsp'', ''rtspu'', ''sip'', ''sips'', ''mms'', ''sftp'', ''tel'']"

definition split_scheme :: "string \<Rightarrow> string \<times> string" where
  "split_scheme url =
     (let pre = takeWhile (\<lambda>c. c \<noteq> CHR '':'') url in
      if CHR '':'' \<in> set url \<and> pre \<noteq> [] \<and> ascii_alpha (hd pre) \<and> list_all scheme_char pre
      then (map ascii_lower pre, drop (Suc (length pre)) url)
      else ([], url))"

definition split_netloc :: "string \<Rightarrow> string \<times> string" where
  "split_netloc url =
     (if take 2 url = ''//''
      then (takeWhile (\<lambda>c. c \<notin> set ''/?#'') (drop 2 url),
            dropWhile (\<lambda>c. c \<notin> set ''/?#'') (drop 2 url))
      else ([], url))"

definition split_params :: "string \<Rightarrow> string" where
  "split_params url =
     (if CHR ''/'' \<in> set url then
        (let last_segment = rev (takeWhile (\<lambda>c. c \<noteq> CHR ''/'') (rev url)) in
         take (length url - length last_segment) url
           @ takeWhile (\<lambda>c. c \<noteq> CHR '';'') last_segment)
      else takeWhile (\<lambda>c. c \<noteq> CHR '';'') url)"

definition urlparse_path :: "string \<Rightarrow> pyexc + string" where
  "urlparse_path raw =
     (let url0 = filter (\<lambda>c. \<not> unsafe_url_byte c) (dropWhile c0_control_or_space raw);
          (scheme, url1) = split_scheme url0;
          (netloc, url2) = split_netloc url1
      in if (CHR ''['' \<in> set netloc) \<noteq> (CHR '']'' \<in> set netloc) then Inl ValueError
         else
           (let url3 = takeWhile (\<lambda>c. c \<noteq> CHR ''#'') url2;
                url4 = takeWhile (\<lambda>c. c \<noteq> CHR ''?'') url3
            in Inr (if scheme \<in> set uses_params \<and> CHR '';'' \<in> set url4
                    then split_params url4 else url4)))"

text \<open>
  \<^verbatim>\<open>do_GET\<close>, on \<^verbatim>\<open>self.path\<close>, the target of the request line as the HTTP server
  hands it over. A record is a Python dictionary, so \<^verbatim>\<open>if device\<close> is false for a
  missing key and for an empty record.
\<close>

definition do_GET :: "fetcher \<Rightarrow> bridge_state \<Rightarrow> string \<Rightarrow> pyexc + response" where
  "do_GET fetch_with_cookie s self_path =
     (case urlparse_path self_path of
        Inl e \<Rightarrow> Inl e
      | Inr path \<Rightarrow>
          (if path = ''/status'' then
             Inr (send_json (JDict [(''connected'', JBool (connected s)),
                                    (''device_count'', JNum (of_nat (length (devices s)))),
                                    (''last_update'', JNum (last_update s))]) 200)
           else if path = ''/devices'' then
             (let ds = map snd (devices s) in
              Inr (send_json (JDict [(''devices'', JList (map JDict ds)),
                                     (''count'', JNum (of_nat (length ds)))]) 200))
           else if path = ''/cameras'' then
             (case filter_cameras (map snd (devices s)) of
                Inl e \<Rightarrow> Inl e
              | Inr cameras \<Rightarrow>
                  Inr (send_json (JDict [(''cameras'', JList (map JDict cameras)),
                                         (''count'', JNum (of_nat (length cameras)))]) 200))
           else if prefix ''/device/'' path \<and> suffix ''/state'' path then
             (case py_index (py_split CHR ''/'' path) 2 of
                Inl e \<Rightarrow> Inl e
              | Inr device_id \<Rightarrow>
                  (case map_of (devices s) device_id of
                     None \<Rightarrow> Inr (send_json (JDict [(''error'', JStr ''Device not found'')]) 404)
                   | Some device \<Rightarrow>
                       if device \<noteq> [] then Inr (send_json (JDict device) 200)
                       else Inr (send_json (JDict [(''error'', JStr ''Device not found'')]) 404)))
           else if prefix ''/device/'' path \<and> suffix ''/snapshot'' path then
             (case py_index (py_split CHR ''/'' path) 2 of
                Inl e \<Rightarrow> Inl e
              | Inr device_id \<Rightarrow>
                  (case map_of (devices s) device_id of
                     None \<Rightarrow> Inr (send_json (JDict [(''error'', JStr ''Device not found'')]) 404)
                   | Some device \<Rightarrow>
                       if device \<noteq> [] then
                         Inr (fetch_snapshot fetch_with_cookie (host s) (token s) device_id)
                       else Inr (send_json (JDict [(''error'', JStr ''Device not found'')]) 404)))
           else Inr (send_json (JDict [(''error'', JStr ''Unknown endpoint'')]) 404)))"

text \<open>
  \<^verbatim>\<open>self.path\<close> is a word of the request line, which the HTTP server splits at
  whitespace, so it holds none. A device id can be put into the path as it is when it has no
  whitespace and none of \<^verbatim>\<open>/\<close>, \<^verbatim>\<open>?\<close> and \<^verbatim>\<open>#\<close>.
\<close>

definition py_isspace :: "char \<Rightarrow> bool" where
  "py_isspace c =
     (c \<in> set [CHR 0x09, CHR 0x0A, CHR 0x0B, CHR 0x0C, CHR 0x0D, CHR 0x1C, CHR 0x1D, CHR 0x1E,
                CHR 0x1F, CHR 0x20, CHR 0x85, CHR 0xA0])"

definition path_safe_id :: "string \<Rightarrow> bool" where
  "path_safe_id d = list_all (\<lambda>c. c \<notin> set ''/?#'' \<and> \<not> py_isspace c) d"

text \<open>
  The camera filter as the specification words it: the record's \<^verbatim>\<open>interfaces\<close> is a list
  of tags and one of them is a camera-type marker.
\<close>

definition has_camera_marker :: "pydict \<Rightarrow> bool" where
  "has_camera_marker d =
     (case map_of d ''interfaces'' of
        Some (JList tags) \<Rightarrow> JStr ''Camera'' \<in> set tags \<or> JStr ''VideoCamera'' \<in> set tags
      | _ \<Rightarrow> False)"

definition interfaces_is_list :: "pydict \<Rightarrow> bool" where
  "interfaces_is_list d =
     (case map_of d ''interfaces'' of None \<Rightarrow> True | Some (JList tags) \<Rightarrow> True | _ \<Rightarrow> False)"

text \<open>
  The first URL whose fetch returns more than \<open>100\<close> bytes, as the specification words the
  Snapshot Fetcher: position \<open>i\<close> is accepted, every earlier one failed or was too small.
\<close>

definition plausible :: "pyexc + byte list \<Rightarrow> bool" where
  "plausible r = (case r of Inl e \<Rightarrow> False | Inr data \<Rightarrow> 100 < length data)"

definition first_plausible :: "fetcher \<Rightarrow> string \<Rightarrow> string list \<Rightarrow> nat \<Rightarrow> byte list \<Rightarrow> bool" where
  "first_plausible f cookie urls i data =
     (i < length urls \<and> f (urls ! i) cookie = Inr data \<and> 100 < length data \<and>
      list_all (\<lambda>u. \<not> plausible (f u cookie)) (take i urls))"

subsection \<open>Login\<close>

text \<open>
  What \<^verbatim>\<open>urlopen\<close> does with the login request is the environment's: a response whose
  body parses as JSON or does not, an \<^verbatim>\<open>HTTPError\<close> with its code and body (parsed or
  not), or any other exception (\<^verbatim>\<open>URLError\<close>, a timeout).
\<close>

datatype http_reply =
    HttpOk "json option"
  | HttpError nat string "json option"
  | UrlOpenRaises pyexc

text \<open>\<^verbatim>\<open>x[k]\<close> for a string \<open>k\<close>.\<close>

definition py_getitem :: "json \<Rightarrow> string \<Rightarrow> pyexc + json" where
  "py_getitem x k =
     (case x of
        JDict kvs \<Rightarrow> (case map_of kvs k of None \<Rightarrow> Inl KeyError | Some v \<Rightarrow> Inr v)
      | _ \<Rightarrow> Inl TypeError)"

definition login_to_scrypted :: "http_reply \<Rightarrow> pyexc + json" where
  "login_to_scrypted reply =
     (case reply of
        HttpOk None \<Rightarrow> Inl JSONDecodeError
      | HttpOk (Some result) \<Rightarrow>
          (case py_in ''error'' result of
             Inl e \<Rightarrow> Inl e
           | Inr True \<Rightarrow>
               (case py_getitem result ''error'' of
                  Inl e \<Rightarrow> Inl e
                | Inr m \<Rightarrow> Inl (PyException (MsgJson m)))
           | Inr False \<Rightarrow> Inr result)
      | HttpError code body None \<Rightarrow> Inl (PyException (MsgHttpBody code body))
      | HttpError code body (Some error_json) \<Rightarrow>
          (case error_json of
             JDict kvs \<Rightarrow>
               Inl (PyException
                     (case map_of kvs ''error'' of None \<Rightarrow> MsgHttp code | Some m \<Rightarrow> MsgJson m))
           | _ \<Rightarrow> Inl AttributeError)
      | UrlOpenRaises e \<Rightarrow> Inl e)"

text \<open>\<^verbatim>\<open>s.replace(old, new)\<close> for a non-empty \<open>old\<close>.\<close>

fun str_replace :: "string \<Rightarrow> string \<Rightarrow> string \<Rightarrow> string" where
  "str_replace old new [] = []"
| "str_replace old new (c # cs) =
     (if old \<noteq> [] \<and> prefix old (c # cs)
      then new @ str_replace old new (drop (length old - 1) cs)
      else c # str_replace old new cs)"

text \<open>\<^verbatim>\<open>login_result.get('authorization', '').replace('Bearer ', '')\<close>\<close>

definition get_token :: "json \<Rightarrow> pyexc + string" where
  "get_token login_result =
     (case login_result of
        JDict kvs \<Rightarrow>
          (case (case map_of kvs ''authorization'' of None \<Rightarrow> JStr [] | Some v \<Rightarrow> v) of
             JStr a \<Rightarrow> Inr (str_replace ''Bearer '' [] a)
           | _ \<Rightarrow> Inl AttributeError)
      | _ \<Rightarrow> Inl AttributeError)"

subsection \<open>The process: \<^verbatim>\<open>connect_socketio\<close> and \<^verbatim>\<open>main\<close>\<close>

text \<open>
  What the process does besides changing \<^verbatim>\<open>scrypted_state\<close> is recorded as a trace:
  starting the HTTP server thread, lines printed to stderr, output printed to stdout.
\<close>

datatype log =
    LoggingIn string
  | LoginSuccessful
  | LoginFailed pyexc
  | LimitedMode
  | Connecting string
  | SocketIOConnected
  | SocketIODisconnected
  | UpdatedDevices nat
  | SocketIOError pyexc

datatype action =
    StartHttpThread nat
  | Stderr log
  | StdoutResult json
  | StdoutError pyexc

type_synonym process = "bridge_state \<times> action list"

definition print_stderr :: "process \<Rightarrow> log \<Rightarrow> process" where
  "print_stderr p l = (fst p, snd p @ [Stderr l])"

text \<open>What a handler prints when its event is dispatched.\<close>

fun event_log :: "event \<Rightarrow> log list" where
  "event_log Connect = [SocketIOConnected]"
| "event_log Disconnect = [SocketIODisconnected]"
| "event_log (SystemState (JDict items) now) = [UpdatedDevices (length items)]"
| "event_log (SystemState data now) = []"
| "event_log (StateChange device_id property_name val) = []"

definition dispatch :: "process \<Rightarrow> event \<Rightarrow> process" where
  "dispatch p e = (handle_event (fst p) e, snd p @ map Stderr (event_log e))"

text \<open>
  An \<^verbatim>\<open>await\<close> of \<^verbatim>\<open>connect_socketio\<close> suspends the coroutine: the event loop dispatches
  the events that arrive meanwhile to the handlers, then the awaited call returns or raises.
\<close>

datatype awaited = Awaited "event list" "pyexc option"

fun await :: "process \<Rightarrow> awaited \<Rightarrow> process \<times> pyexc option" where
  "await p (Awaited events raised) = (foldl dispatch p events, raised)"

text \<open>
  One round of the keep-alive loop: the events dispatched during \<^verbatim>\<open>asyncio.sleep(30)\<close>,
  the value of \<^verbatim>\<open>sio.connected\<close> after it, and the \<^verbatim>\<open>emit('ping')\<close> that is awaited
  when it is true.
\<close>

datatype tick = Tick "event list" bool awaited

text \<open>
  \<^verbatim>\<open>while True\<close> has no exit of its own. The loop is run on the rounds the environment
  supplies: it ends with \<open>Some e\<close> when a ping raises \<open>e\<close>, and with \<open>None\<close> when the
  rounds are used up and the loop is still going.
\<close>

fun keepalive :: "process \<Rightarrow> tick list \<Rightarrow> process \<times> pyexc option" where
  "keepalive p [] = (p, None)"
| "keepalive p (Tick sleep_events sio_connected ping # rounds) =
     (let p1 = foldl dispatch p sleep_events in
      if sio_connected then
        (case await p1 ping of
           (p2, Some e) \<Rightarrow> (p2, Some e)
         | (p2, None) \<Rightarrow> keepalive p2 rounds)
      else keepalive p1 rounds)"

record sio_script =
  connect_call :: awaited
  get_state_call :: awaited
  ticks :: "tick list"

datatype 'a outcome = Returned 'a | Running 'a

definition connect_socketio ::
  "bool \<Rightarrow> string \<Rightarrow> http_reply \<Rightarrow> sio_script \<Rightarrow> process \<Rightarrow> process outcome" where
  "connect_socketio has_socketio h reply script p0 =
     (let p1 = print_stderr p0 (LoggingIn h) in
      case (case login_to_scrypted reply of Inl e \<Rightarrow> Inl e | Inr r \<Rightarrow> get_token r) of
        Inl e \<Rightarrow> Returned (print_stderr p1 (LoginFailed e))
      | Inr tok \<Rightarrow>
          (let p2 = print_stderr (fst p1\<lparr>token := Some tok, host := Some h\<rparr>, snd p1)
                      LoginSuccessful in
           if \<not> has_socketio then
             (let p3 = print_stderr p2 LimitedMode in
              Returned (fst p3\<lparr>connected := True\<rparr>, snd p3))
           else
             (let p3 = print_stderr p2 (Connecting (h @ ''/endpoint/@scrypted/core/engine.io/api/''))
              in case await p3 (connect_call script) of
                   (p4, Some e) \<Rightarrow> Returned (print_stderr p4 (SocketIOError e))
                 | (p4, None) \<Rightarrow>
                     (case await p4 (get_state_call script) of
                        (p5, Some e) \<Rightarrow> Returned (print_stderr p5 (SocketIOError e))
                      | (p5, None) \<Rightarrow>
                          (case keepalive p5 (ticks script) of
                             (p6, Some e) \<Rightarrow> Returned (print_stderr p6 (SocketIOError e))
                           | (p6, None) \<Rightarrow> Running p6)))))"

text \<open>
  \<^verbatim>\<open>main\<close> after argument parsing. The HTTP server thread is a daemon thread: when
  \<^verbatim>\<open>main\<close> returns, the interpreter exits with status \<open>0\<close> and the thread ends with it.
  \<open>Alive\<close> is a process whose \<^verbatim>\<open>connect_socketio\<close> is still in its keep-alive loop.
\<close>

datatype run_mode = Full | Test

datatype status = Exited nat | Alive

definition main ::
  "run_mode \<Rightarrow> nat \<Rightarrow> bool \<Rightarrow> string \<Rightarrow> http_reply \<Rightarrow> sio_script \<Rightarrow> process \<times> status" where
  "main mode port has_socketio h reply script =
     (case mode of
        Test \<Rightarrow>
          (case login_to_scrypted reply of
             Inr result \<Rightarrow> ((scrypted_state, [StdoutResult result]), Exited 0)
           | Inl e \<Rightarrow> ((scrypted_state, [StdoutError e]), Exited 1))
      | Full \<Rightarrow>
          (case connect_socketio has_socketio h reply script
                  (scrypted_state, [StartHttpThread port]) of
             Returned p \<Rightarrow> (p, Exited 0)
           | Running p \<Rightarrow> (p, Alive)))"

definition started :: "process \<Rightarrow> bool" where
  "started p = list_ex (\<lambda>a. case a of StartHttpThread port \<Rightarrow> True | _ \<Rightarrow> False) (snd p)"

definition listener_started :: "process \<times> status \<Rightarrow> bool" where
  "listener_started r = started (fst r)"

definition raises :: "awaited \<Rightarrow> bool" where
  "raises a = (case a of Awaited events raised \<Rightarrow> raised \<noteq> None)"

text \<open>A ping is sent, and can fail, only in a round in which \<^verbatim>\<open>sio.connected\<close> is true.\<close>

definition ping_raises :: "tick \<Rightarrow> bool" where
  "ping_raises t = (case t of Tick sleep_events sio_connected ping \<Rightarrow> sio_connected \<and> raises ping)"

definition script_raises :: "sio_script \<Rightarrow> bool" where
  "script_raises script =
     (raises (connect_call script) \<or> raises (get_state_call script)
      \<or> list_ex ping_raises (ticks script))"

text \<open>The events that a run of the client dispatches when no call raises, in order.\<close>

fun awaited_events :: "awaited \<Rightarrow> event list" where
  "awaited_events (Awaited events raised) = events"

fun tick_events :: "tick \<Rightarrow> event list" where
  "tick_events (Tick sleep_events sio_connected ping) =
     sleep_events @ (if sio_connected then awaited_events ping else [])"

definition script_events :: "sio_script \<Rightarrow> event list" where
  "script_events script =
     awaited_events (connect_call script) @ awaited_events (get_state_call script)
       @ concat (map tick_events (ticks script))"

subsection \<open>Events by kind, and the specification's example\<close>

text \<open>A \<^verbatim>\<open>systemState\<close> event whose payload is a mapping.\<close>

definition full_snapshot :: "event \<Rightarrow> bool" where
  "full_snapshot e = (case e of SystemState (JDict items) now \<Rightarrow> True | _ \<Rightarrow> False)"

text \<open>
  The specification's scenario: the store is empty and a full snapshot
  \<^verbatim>\<open>{"cam1": {"interfaces": ["Camera"], "on": true}}\<close> arrives (at time \<open>5\<close>).
\<close>

definition cam1_snapshot :: event where
  "cam1_snapshot =
     SystemState (JDict [(''cam1'', JDict [(''interfaces'', JList [JStr ''Camera'']),
                                           (''on'', JBool True)])]) 5"

definition cam1_state :: bridge_state where
  "cam1_state = run_events scrypted_state [cam1_snapshot]"

text \<open>A hub that does not answer: every fetch times out.\<close>

definition no_fetch :: fetcher where
  "no_fetch url cookie = Inl (OtherError ''timed out'')"

text \<open>A second snapshot, at time \<open>6\<close>, adds a lamp to the store of the scenario.\<close>

definition two_devices_state :: bridge_state where
  "two_devices_state =
     run_events cam1_state
       [SystemState (JDict [(''lamp'', JDict [(''interfaces'', JList [JStr ''OnOff''])])]) 6]"



text \<open>A snapshot \<^verbatim>\<open>{"x": {"interfaces": null}}\<close> arrives at the empty store.\<close>

definition null_interfaces_state :: bridge_state where
  "null_interfaces_state =
     run_events scrypted_state [SystemState (JDict [(''x'', JDict [(''interfaces'', JNull)])]) 5]"

text \<open>
  The specification's snapshot scenario: the first URL yields \<open>10\<close> bytes, the second
  \<open>50000\<close>; the bridge is logged in to \<^verbatim>\<open>https://hub\<close> with token \<^verbatim>\<open>tok\<close>.
\<close>

definition scenario_fetch :: fetcher where
  "scenario_fetch url cookie =
     (if url = ''https://hub/endpoint/@scrypted/snapshot/public/cam1''
      then Inr (replicate 50000 0) else Inr (replicate 10 0))"

definition logged_in_state :: bridge_state where
  "logged_in_state = cam1_state\<lparr>token := Some ''tok'', host := Some ''https://hub''\<rparr>"

text \<open>
  Replies of the hub to the login request, and three runs of the Socket.IO client. In the
  first the connection is made, the snapshot of the scenario arrives, and the connection then
  drops, which the client reports with a disconnect event. In the second the hub refuses the
  connection and \<^verbatim>\<open>sio.connect\<close> raises. In the third the connection is made, the
  snapshot arrives, and the first keep-alive ping raises.
\<close>

definition bad_credentials :: http_reply where
  "bad_credentials = HttpOk (Some (JDict [(''error'', JStr ''bad credentials'')]))"

definition ok_reply :: http_reply where
  "ok_reply = HttpOk (Some (JDict [(''authorization'', JStr ''Bearer tok'')]))"

definition idle_script :: sio_script where
  "idle_script = \<lparr>connect_call = Awaited [Connect] None,
                   get_state_call = Awaited [cam1_snapshot] None,
                   ticks = [Tick [Disconnect] False (Awaited [] None)]\<rparr>"

definition refused_script :: sio_script where
  "refused_script = \<lparr>connect_call = Awaited [] (Some (OtherError ''connection refused'')),
                      get_state_call = Awaited [] None,
                      ticks = []\<rparr>"

definition ping_fails_script :: sio_script where
  "ping_fails_script = \<lparr>connect_call = Awaited [Connect] None,
                   get_state_call = Awaited [cam1_snapshot] None,
                   ticks = [Tick [] True (Awaited [] (Some (OtherError ''connection lost'')))]\<rparr>"

section \<open>The path of a request\<close>

text \<open>
  \<^verbatim>\<open>urlparse\<close> leaves the three fixed paths as they are, and the path of a device as
  well when the device id holds no \<^verbatim>\<open>?\<close>, no \<^verbatim>\<open>#\<close> and no tab, carriage return or
  line feed.
\<close>

lemma urlparse_path_fixed:
  "urlparse_path ''/status'' = Inr ''/status''"
  "urlparse_path ''/devices'' = Inr ''/devices''"
  "urlparse_path ''/cameras'' = Inr ''/cameras''"
  by (simp_all add: urlparse_path_def c0_control_or_space_def unsafe_url_byte_def
        split_scheme_def split_netloc_def ascii_alpha_def uses_params_def Let_def)

lemma split_params_last_segment:
  assumes "CHR ''/'' \<notin> set seg" and "CHR '';'' \<notin> set seg"
  shows "split_params (pre @ CHR ''/'' # seg) = pre @ CHR ''/'' # seg"
proof -
  have t: "takeWhile (\<lambda>c. c \<noteq> CHR ''/'') (rev seg @ CHR ''/'' # rev pre) = rev seg"
    using assms(1) by (auto simp: takeWhile_tail takeWhile_eq_all_conv)
  have s: "takeWhile (\<lambda>c. c \<noteq> CHR '';'') seg = seg"
    using assms(2) by (simp only: takeWhile_eq_all_conv) auto
  show ?thesis
    by (simp add: split_params_def t s)
qed

lemma urlparse_path_device:
  assumes d: "\<forall>c\<in>set d. c \<noteq> CHR ''?'' \<and> c \<noteq> CHR ''#'' \<and> \<not> unsafe_url_byte c"
    and seg: "\<forall>c\<in>set seg. c \<notin> set ''/?#;'' \<and> \<not> unsafe_url_byte c"
  shows "urlparse_path (''/device/'' @ d @ CHR ''/'' # seg) = Inr (''/device/'' @ d @ CHR ''/'' # seg)"
proof -
  let ?url = "''/device/'' @ d @ CHR ''/'' # seg"
  have clean: "\<forall>c\<in>set ?url. \<not> unsafe_url_byte c"
    using d seg by (auto simp: unsafe_url_byte_def)
  have u0: "filter (\<lambda>c. \<not> unsafe_url_byte c) (dropWhile c0_control_or_space ?url) = ?url"
  proof -
    have "dropWhile c0_control_or_space ?url = ?url"
      by (simp add: c0_control_or_space_def)
    moreover have "filter (\<lambda>c. \<not> unsafe_url_byte c) ?url = ?url"
      using clean by (simp only: filter_id_conv) 
    ultimately show ?thesis by (simp only:)
  qed
  have sc: "split_scheme ?url = ([], ?url)"
    by (simp add: split_scheme_def ascii_alpha_def Let_def)
  have nl: "split_netloc ?url = ([], ?url)"
    by (simp add: split_netloc_def)
  have fr: "takeWhile (\<lambda>c. c \<noteq> CHR ''#'') ?url = ?url"
    using d seg by (simp only: takeWhile_eq_all_conv) auto
  have qu: "takeWhile (\<lambda>c. c \<noteq> CHR ''?'') ?url = ?url"
    using d seg by (simp only: takeWhile_eq_all_conv) auto
  have pa: "split_params ?url = ?url"
  proof -
    have "CHR ''/'' \<notin> set seg" and "CHR '';'' \<notin> set seg"
      using seg by auto
    then have "split_params ((''/device/'' @ d) @ CHR ''/'' # seg) = (''/device/'' @ d) @ CHR ''/'' # seg"
      by (rule split_params_last_segment)
    then show ?thesis by (simp only: append_assoc)
  qed
  show ?thesis
    unfolding urlparse_path_def
    by (simp only: u0 sc nl fr qu pa Let_def prod.case list.set empty_iff if_False if_cancel
          sum.case simp_thms)
qed

lemma path_safe_id_slash: "path_safe_id d \<Longrightarrow> CHR ''/'' \<notin> set d"
  by (auto simp: path_safe_id_def list_all_iff)

lemma path_safe_id_url:
  "path_safe_id d \<Longrightarrow> \<forall>c\<in>set d. c \<noteq> CHR ''?'' \<and> c \<noteq> CHR ''#'' \<and> \<not> unsafe_url_byte c"
  by (auto simp: path_safe_id_def list_all_iff unsafe_url_byte_def py_isspace_def)


lemma urlparse_path_snapshot:
  "path_safe_id d \<Longrightarrow>
   urlparse_path (''/device/'' @ d @ ''/snapshot'') = Inr (''/device/'' @ d @ ''/snapshot'')"
  using urlparse_path_device [of d "''snapshot''"] path_safe_id_url [of d]
  by (simp add: unsafe_url_byte_def)

declare send_json_def [simp] send_binary_def [simp]

section \<open>Properties of the store\<close>

lemma map_of_dict_set: "map_of (dict_set d k v) = (map_of d)(k \<mapsto> v)"
  by (induction d) auto

lemma keys_dict_set: "fst ` set (dict_set d k v) = insert k (fst ` set d)"
proof -
  have "fst ` set (dict_set d k v) = dom (map_of (dict_set d k v))"
    by (simp add: dom_map_of_conv_image_fst)
  also have "\<dots> = insert k (dom (map_of d))"
    by (simp add: map_of_dict_set)
  finally show ?thesis
    by (simp add: dom_map_of_conv_image_fst)
qed

text \<open>
  The keys of the device store stay distinct, as the keys of a Python dictionary are: the
  length of the association list is the number of devices.
\<close>

lemma distinct_dict_set: "distinct (map fst d) \<Longrightarrow> distinct (map fst (dict_set d k v))"
proof (induction d)
  case Nil
  then show ?case by simp
next
  case (Cons kv d)
  then show ?case
    using keys_dict_set [of d k v] by (cases kv) auto
qed

lemma distinct_keys_handle_event:
  "distinct (map fst (devices s)) \<Longrightarrow> distinct (map fst (devices (handle_event s e)))"
proof (cases e)
  case (SystemState data now)
  have "distinct (map fst (devices s')) \<Longrightarrow> distinct (map fst (devices (foldl upsert_device s' items)))"
    for s' items
    by (induction items arbitrary: s')
       (auto simp: upsert_device_def distinct_dict_set split: json.splits prod.splits)
  then show "distinct (map fst (devices s)) \<Longrightarrow> ?thesis"
    using SystemState by (simp add: on_system_state_def split: json.splits)
next
  case (StateChange k p v)
  then show "distinct (map fst (devices s)) \<Longrightarrow> ?thesis"
    by (simp add: on_state_change_def distinct_dict_set split: option.splits)
qed (simp_all add: connect_def disconnect_def)

lemma distinct_keys_run_events:
  "distinct (map fst (devices (run_events scrypted_state es)))"
proof -
  have "distinct (map fst (devices s)) \<Longrightarrow> distinct (map fst (devices (foldl handle_event s es)))"
    for s
    by (induction es arbitrary: s) (simp_all add: distinct_keys_handle_event)
  then show ?thesis
    by (simp add: run_events_def scrypted_state_def)
qed

subsection \<open>The handlers and the fold of the specification\<close>

lemma store_of_upsert_device: "store_of (upsert_device s item) = spec_upsert (store_of s) item"
  by (cases item)
     (auto simp: upsert_device_def spec_upsert_def store_of_def map_of_dict_set fun_eq_iff
           split: json.splits)

lemma store_of_foldl_upsert:
  "store_of (foldl upsert_device s items) = foldl spec_upsert (store_of s) items"
  by (induction items arbitrary: s) (simp_all add: store_of_upsert_device)

lemma store_of_last_update: "store_of (s\<lparr>last_update := t\<rparr>) = store_of s"
  by (simp add: store_of_def)

lemma store_of_handle_event: "store_of (handle_event s e) = spec_apply (store_of s) e"
proof (cases e)
  case (SystemState data now)
  then show ?thesis
    by (simp add: on_system_state_def store_of_last_update store_of_foldl_upsert
             split: json.splits)
next
  case (StateChange k p v)
  then show ?thesis
    by (auto simp: on_state_change_def store_of_def map_of_dict_set fun_eq_iff
             split: option.splits)
qed (simp_all add: connect_def disconnect_def store_of_def)

lemma store_of_run_events:
  "store_of (run_events s es) = foldl spec_apply (store_of s) es"
  unfolding run_events_def
  by (induction es arbitrary: s) (simp_all add: store_of_handle_event)

text \<open>
  C1. For every sequence of full-snapshot and incremental events applied to the initially
  empty store, the record the bridge holds for any device id is the one obtained by folding
  the events in arrival order at the level of mappings: a snapshot entry installs its
  attribute mapping with the id set, an incremental event overwrites one property.
\<close>

theorem events_fold_last_write_wins:
  "store_of (run_events scrypted_state es) k = spec_fold es k"
proof -
  have "store_of scrypted_state = Map.empty"
    by (simp add: store_of_def scrypted_state_def)
  then show ?thesis
    by (simp add: store_of_run_events spec_fold_def)
qed

theorem events_fold_last_write_wins_witness:
  "store_of (run_events scrypted_state [cam1_snapshot, StateChange ''cam1'' ''on'' (JBool False)])
     ''cam1''
   = spec_fold [cam1_snapshot, StateChange ''cam1'' ''on'' (JBool False)] ''cam1''"
  using events_fold_last_write_wins
          [of "[cam1_snapshot, StateChange ''cam1'' ''on'' (JBool False)]" "''cam1''"]
  by simp

lemma cam1_state_eq:
  "cam1_state =
     \<lparr>devices = [(''cam1'', [(''interfaces'', JList [JStr ''Camera'']), (''on'', JBool True),
                              (''id'', JStr ''cam1'')])],
      connected = False, token = None, host = None, last_update = 5\<rparr>"
  by (simp add: cam1_state_def cam1_snapshot_def run_events_def on_system_state_def
        upsert_device_def scrypted_state_def)

text \<open>
  The specification's second scenario: after the snapshot, the incremental event
  \<^verbatim>\<open>(cam1, "on", false)\<close> changes that one property and nothing else.
\<close>

lemma cam1_incremental_change:
  "on_state_change cam1_state ''cam1'' ''on'' (JBool False) =
     cam1_state\<lparr>devices := [(''cam1'', [(''interfaces'', JList [JStr ''Camera'']),
                                             (''on'', JBool False), (''id'', JStr ''cam1'')])]\<rparr>"
  by (simp add: cam1_state_eq on_state_change_def)

text \<open>
  C2. For every store state and every incremental change event whose device id is not a key
  of the store, applying the event leaves the whole state as it was: no record is created and
  no record is modified.
\<close>

theorem state_change_unknown_id_noop:
  "device_id \<notin> fst ` set (devices s) \<Longrightarrow>
   on_state_change s device_id property_name val = s"
  by (simp add: on_state_change_def map_of_eq_None_iff[symmetric])

theorem state_change_unknown_id_noop_witness:
  "''cam2'' \<notin> fst ` set (devices cam1_state) \<and>
   on_state_change cam1_state ''cam2'' ''on'' (JBool False) = cam1_state"
proof -
  have h: "''cam2'' \<notin> fst ` set (devices cam1_state)"
    by (simp add: cam1_state_eq)
  show ?thesis
    using h state_change_unknown_id_noop [OF h, of "''on''" "JBool False"] by simp
qed

subsection \<open>The id field of a record\<close>

lemma id_matches_key_iff:
  "id_matches_key s \<longleftrightarrow>
     (\<forall>k r. map_of (devices s) k = Some r \<longrightarrow> map_of r ''id'' = Some (JStr k))"
  unfolding id_matches_key_def list_all_iff
  by (auto split: option.splits dest: map_of_SomeD
           simp: rev_image_eqI domI domD dom_map_of_conv_image_fst[symmetric])

lemma id_matches_key_upsert:
  "id_matches_key s \<Longrightarrow> id_matches_key (upsert_device s item)"
  by (cases item)
     (auto simp: id_matches_key_iff upsert_device_def map_of_dict_set split: json.splits)

lemma id_matches_key_foldl_upsert:
  "id_matches_key s \<Longrightarrow> id_matches_key (foldl upsert_device s items)"
  by (induction items arbitrary: s) (simp_all add: id_matches_key_upsert)

lemma id_matches_key_last_update:
  "id_matches_key (s\<lparr>last_update := t\<rparr>) = id_matches_key s"
  by (simp add: id_matches_key_def)

lemma id_matches_key_system_state:
  "id_matches_key s \<Longrightarrow> id_matches_key (on_system_state s data now)"
  by (simp add: on_system_state_def id_matches_key_last_update id_matches_key_foldl_upsert
           split: json.splits)

lemma id_matches_key_state_change:
  "id_matches_key s \<Longrightarrow> property_name \<noteq> ''id'' \<or> val = JStr device_id \<Longrightarrow>
   id_matches_key (on_state_change s device_id property_name val)"
  by (auto simp: id_matches_key_iff on_state_change_def map_of_dict_set split: option.splits)

text \<open>
  C3, as the claim states it, fails: an incremental event whose property name is \<^verbatim>\<open>id\<close>
  overwrites the id field of the record. After the specification's snapshot, the event
  \<^verbatim>\<open>(cam1, "id", "x")\<close> leaves the record stored under \<^verbatim>\<open>cam1\<close> with id \<^verbatim>\<open>x\<close>.
\<close>

theorem id_invariant_broken_by_id_property:
  "id_matches_key cam1_state \<and>
   \<not> id_matches_key (on_state_change cam1_state ''cam1'' ''id'' (JStr ''x''))"
  by (simp add: cam1_state_eq id_matches_key_def on_state_change_def)

text \<open>
  C3, amended. The empty store satisfies the invariant (the id field of every stored record
  equals its key); a full-snapshot event preserves it; an incremental event preserves it when
  its property name is not \<^verbatim>\<open>id\<close> or its value is the device id itself.
\<close>

theorem id_invariant_preserved:
  "id_matches_key scrypted_state \<and>
   (id_matches_key s \<longrightarrow>
      id_matches_key (on_system_state s data now) \<and>
      (property_name \<noteq> ''id'' \<or> val = JStr device_id \<longrightarrow>
         id_matches_key (on_state_change s device_id property_name val)))"
  by (simp add: id_matches_key_system_state id_matches_key_state_change)
     (simp add: id_matches_key_def scrypted_state_def)

theorem id_invariant_preserved_witness:
  "id_matches_key cam1_state \<and> ''on'' \<noteq> ''id'' \<and>
   id_matches_key (on_system_state cam1_state (JDict [(''cam2'', JDict [])]) 6) \<and>
   id_matches_key (on_state_change cam1_state ''cam1'' ''on'' (JBool False)) \<and>
   devices (on_state_change cam1_state ''cam1'' ''on'' (JBool False)) \<noteq> devices cam1_state"
proof -
  have h: "id_matches_key cam1_state"
    by (simp add: cam1_state_eq id_matches_key_def)
  have c: "devices (on_state_change cam1_state ''cam1'' ''on'' (JBool False))
             \<noteq> devices cam1_state"
    by (simp add: cam1_state_eq on_state_change_def)
  show ?thesis
    using h c
      id_invariant_preserved [of cam1_state "JDict [(''cam2'', JDict [])]" 6 "''on''"
        "JBool False" "''cam1''"]
    by simp
qed

subsection \<open>The time of the last update\<close>

lemma last_update_foldl_upsert: "last_update (foldl upsert_device s items) = last_update s"
  by (induction items arbitrary: s) (auto simp: upsert_device_def split: json.splits prod.splits)

lemma last_update_handle_event:
  "\<not> full_snapshot e \<Longrightarrow> last_update (handle_event s e) = last_update s"
  by (cases e)
     (auto simp: full_snapshot_def connect_def disconnect_def on_system_state_def
                 on_state_change_def
           split: json.splits option.splits)

lemma last_update_run_events:
  "\<forall>e\<in>set es. \<not> full_snapshot e \<Longrightarrow> last_update (run_events s es) = last_update s"
  unfolding run_events_def
  by (induction es arbitrary: s) (simp_all add: last_update_handle_event)

text \<open>
  C10. The time of the last update changes only when a full-snapshot event with a mapping as
  payload is handled, which sets it to the time of handling. An incremental event leaves it
  unchanged, and so does every sequence of events without such a snapshot: \<^verbatim>\<open>GET /status\<close>
  then answers \<open>200\<close> with a JSON body that reports the time it reported before, whatever
  has happened to the records.
\<close>

theorem last_update_only_by_full_snapshot:
  "last_update (on_state_change s device_id property_name val) = last_update s \<and>
   last_update (on_system_state s (JDict items) now) = now \<and>
   ((\<forall>e\<in>set es. \<not> full_snapshot e) \<longrightarrow>
      last_update (run_events s es) = last_update s \<and>
      do_GET f (run_events s es) ''/status'' =
        Inr (Response 200 ''application/json''
               (JsonBody
                 (JDict [(''connected'', JBool (connected (run_events s es))),
                         (''device_count'', JNum (of_nat (length (devices (run_events s es))))),
                         (''last_update'', JNum (last_update s))]))))"
  by (simp add: last_update_run_events do_GET_def urlparse_path_fixed)
     (simp add: on_state_change_def on_system_state_def split: option.splits)

theorem last_update_only_by_full_snapshot_witness:
  "\<not> full_snapshot (StateChange ''cam1'' ''on'' (JBool False)) \<and> \<not> full_snapshot Disconnect \<and>
   last_update (run_events cam1_state [StateChange ''cam1'' ''on'' (JBool False), Disconnect]) = 5 \<and>
   devices (run_events cam1_state [StateChange ''cam1'' ''on'' (JBool False), Disconnect])
     \<noteq> devices cam1_state"
proof -
  have h: "\<forall>e\<in>set [StateChange ''cam1'' ''on'' (JBool False), Disconnect]. \<not> full_snapshot e"
    by (simp add: full_snapshot_def)
  have c: "devices (run_events cam1_state [StateChange ''cam1'' ''on'' (JBool False), Disconnect])
             \<noteq> devices cam1_state"
    by (simp add: cam1_state_eq run_events_def on_state_change_def disconnect_def)
  have l: "last_update cam1_state = 5"
    by (simp add: cam1_state_eq)
  show ?thesis
    using h c l
      last_update_only_by_full_snapshot
        [of cam1_state "''cam1''" "''on''" "JBool False" "[]" 0
            "[StateChange ''cam1'' ''on'' (JBool False), Disconnect]" no_fetch]
    by simp
qed

section \<open>Properties of the HTTP handler\<close>

subsection \<open>The device id of a request path\<close>

lemma py_split_segment:
  "c \<notin> set d \<Longrightarrow> py_split c (d @ c # rest) = d # py_split c rest"
  by (induction d) (auto split: list.splits)

lemma split_device_path:
  assumes "CHR ''/'' \<notin> set d"
  shows "py_split CHR ''/'' (''/device/'' @ d @ CHR ''/'' # rest)
           = [] # ''device'' # d # py_split CHR ''/'' rest"
proof -
  have "''/device/'' @ d @ CHR ''/'' # rest
          = [] @ CHR ''/'' # (''device'' @ CHR ''/'' # (d @ CHR ''/'' # rest))"
    by simp
  then show ?thesis
    using assms by (simp only: py_split_segment) (simp add: py_split_segment)
qed

lemma device_id_of_path:
  "CHR ''/'' \<notin> set d \<Longrightarrow>
   py_index (py_split CHR ''/'' (''/device/'' @ d @ CHR ''/'' # rest)) 2 = Inr d"
  using split_device_path [of d rest] by (simp add: py_index_def)

lemma suffix_device_path: "suffix rest (''/device/'' @ d @ rest)"
  unfolding suffix_def by (rule exI[of _ "''/device/'' @ d"]) simp

subsection \<open>Stored records are never empty\<close>







subsection \<open>\<^verbatim>\<open>GET /device/{id}/state\<close>\<close>





subsection \<open>\<^verbatim>\<open>GET /cameras\<close> and \<^verbatim>\<open>GET /devices\<close>\<close>

lemma is_camera_list:
  "interfaces_is_list d \<Longrightarrow> is_camera d = Inr (has_camera_marker d)"
  by (auto simp: interfaces_is_list_def is_camera_def has_camera_marker_def
           split: option.splits json.splits bool.splits)

lemma filter_cameras_lists:
  "list_all interfaces_is_list ds \<Longrightarrow> filter_cameras ds = Inr (filter has_camera_marker ds)"
  by (induction ds) (simp_all add: is_camera_list)

lemma two_devices_state_eq:
  "two_devices_state =
     \<lparr>devices = [(''cam1'', [(''interfaces'', JList [JStr ''Camera'']), (''on'', JBool True),
                              (''id'', JStr ''cam1'')]),
                 (''lamp'', [(''interfaces'', JList [JStr ''OnOff'']), (''id'', JStr ''lamp'')])],
      connected = False, token = None, host = None, last_update = 6\<rparr>"
  by (simp add: two_devices_state_def cam1_state_eq run_events_def on_system_state_def
        upsert_device_def)

text \<open>
  C8, as the claim states it, fails for a store in which a record's \<^verbatim>\<open>interfaces\<close> is not
  a list: the handler applies \<^verbatim>\<open>in\<close> to whatever the hub sent. After the snapshot
  \<^verbatim>\<open>{"x": {"interfaces": null}}\<close>, \<^verbatim>\<open>GET /cameras\<close> raises \<^verbatim>\<open>TypeError\<close> and returns no
  list at all.
\<close>

theorem cameras_null_interfaces_raises:
  "do_GET no_fetch null_interfaces_state ''/cameras'' = Inl TypeError"
  by (simp add: null_interfaces_state_def run_events_def on_system_state_def upsert_device_def
        scrypted_state_def do_GET_def is_camera_def urlparse_path_fixed)

text \<open>
  C8, amended. For every store state in which the \<^verbatim>\<open>interfaces\<close> of each record is a list
  or is absent: \<^verbatim>\<open>GET /devices\<close> returns all records, \<^verbatim>\<open>GET /cameras\<close> returns, in the
  same order and also with status \<open>200\<close> as JSON, those of them whose \<^verbatim>\<open>interfaces\<close> list contains \<^verbatim>\<open>Camera\<close> or
  \<^verbatim>\<open>VideoCamera\<close>; each count is the length of its list, and the count of cameras is at
  most the count of devices.
\<close>

theorem cameras_subset_of_devices:
  "list_all interfaces_is_list (map snd (devices s)) \<Longrightarrow>
   do_GET f s ''/devices'' =
     Inr (Response 200 ''application/json''
            (JsonBody
              (JDict [(''devices'', JList (map JDict (map snd (devices s)))),
                      (''count'', JNum (of_nat (length (map snd (devices s)))))]))) \<and>
   do_GET f s ''/cameras'' =
     Inr (Response 200 ''application/json''
            (JsonBody
              (JDict [(''cameras'',
                       JList (map JDict (filter has_camera_marker (map snd (devices s))))),
                      (''count'',
                       JNum (of_nat (length (filter has_camera_marker
                                              (map snd (devices s))))))]))) \<and>
   length (filter has_camera_marker (map snd (devices s))) \<le> length (map snd (devices s))"
  by (simp add: do_GET_def filter_cameras_lists Let_def urlparse_path_fixed)

theorem cameras_subset_of_devices_witness:
  "list_all interfaces_is_list (map snd (devices two_devices_state)) \<and>
   do_GET no_fetch two_devices_state ''/cameras'' =
     Inr (Response 200 ''application/json''
            (JsonBody
              (JDict [(''cameras'',
                       JList [JDict [(''interfaces'', JList [JStr ''Camera'']),
                                     (''on'', JBool True), (''id'', JStr ''cam1'')]]),
                      (''count'', JNum 1)]))) \<and>
   do_GET no_fetch two_devices_state ''/devices'' =
     Inr (Response 200 ''application/json''
            (JsonBody
              (JDict [(''devices'',
                       JList [JDict [(''interfaces'', JList [JStr ''Camera'']),
                                     (''on'', JBool True), (''id'', JStr ''cam1'')],
                              JDict [(''interfaces'', JList [JStr ''OnOff'']),
                                     (''id'', JStr ''lamp'')]]),
                      (''count'', JNum 2)])))"
proof -
  have h: "list_all interfaces_is_list (map snd (devices two_devices_state))"
    by (simp add: two_devices_state_eq interfaces_is_list_def)
  have d: "map snd (devices two_devices_state) =
             [[(''interfaces'', JList [JStr ''Camera'']), (''on'', JBool True),
               (''id'', JStr ''cam1'')],
              [(''interfaces'', JList [JStr ''OnOff'']), (''id'', JStr ''lamp'')]]"
    by (simp add: two_devices_state_eq)
  show ?thesis
    using h cameras_subset_of_devices [OF h, of no_fetch]
    by (simp add: d has_camera_marker_def)
qed

subsection \<open>\<^verbatim>\<open>GET /device/{id}/snapshot\<close>\<close>

lemma try_snapshot_urls_none:
  "list_all (\<lambda>u. \<not> plausible (f u cookie)) urls \<Longrightarrow>
   try_snapshot_urls f cookie urls =
     Response 500 ''application/json''
       (JsonBody (JDict [(''error'', JStr ''Could not fetch snapshot'')]))"
  by (induction urls) (auto simp: plausible_def split: sum.splits)

lemma try_snapshot_urls_first:
  "first_plausible f cookie urls i data \<Longrightarrow>
   try_snapshot_urls f cookie urls = Response 200 ''image/jpeg'' (BytesBody data)"
proof (induction urls arbitrary: i)
  case Nil
  then show ?case by (simp add: first_plausible_def)
next
  case (Cons u us)
  show ?case
  proof (cases i)
    case 0
    with Cons.prems show ?thesis
      by (auto simp: first_plausible_def)
  next
    case (Suc j)
    with Cons.prems have "first_plausible f cookie us j data" and "\<not> plausible (f u cookie)"
      by (auto simp: first_plausible_def)
    then show ?thesis
      using Cons.IH [of j] by (auto simp: plausible_def split: sum.splits)
  qed
qed

lemma do_GET_snapshot_path:
  assumes "path_safe_id d"
  shows "do_GET f s (''/device/'' @ d @ ''/snapshot'') =
     (case map_of (devices s) d of
        None \<Rightarrow> Inr (Response 404 ''application/json''
                        (JsonBody (JDict [(''error'', JStr ''Device not found'')])))
      | Some device \<Rightarrow>
          if device \<noteq> [] then Inr (fetch_snapshot f (host s) (token s) d)
          else Inr (Response 404 ''application/json''
                      (JsonBody (JDict [(''error'', JStr ''Device not found'')]))))"
proof -
  have u: "urlparse_path (''/device/'' @ d @ ''/snapshot'')
             = Inr (''/device/'' @ d @ ''/snapshot'')"
    using assms by (rule urlparse_path_snapshot)
  have i: "py_index (py_split CHR ''/'' (''/device/'' @ d @ ''/snapshot'')) 2 = Inr d"
    using device_id_of_path [OF path_safe_id_slash [OF assms], of "''snapshot''"] by simp
  have p: "prefix ''/device/'' (''/device/'' @ d @ ''/snapshot'')"
    by simp
  have q: "suffix ''/snapshot'' (''/device/'' @ d @ ''/snapshot'')"
    by (rule suffix_device_path)
  have r: "\<not> suffix ''/state'' (''/device/'' @ d @ ''/snapshot'')"
    by (simp add: suffix_to_prefix)
  have n: "''/device/'' @ d @ ''/snapshot'' \<noteq> ''/status''"
    "''/device/'' @ d @ ''/snapshot'' \<noteq> ''/devices''"
    "''/device/'' @ d @ ''/snapshot'' \<noteq> ''/cameras''"
    by simp_all
  show ?thesis
    unfolding do_GET_def
    by (simp only: u i p q r n if_True if_False simp_thms sum.case send_json_def)
qed

lemma logged_in_state_eq:
  "logged_in_state =
     \<lparr>devices = [(''cam1'', [(''interfaces'', JList [JStr ''Camera'']), (''on'', JBool True),
                              (''id'', JStr ''cam1'')])],
      connected = False, token = Some ''tok'', host = Some ''https://hub'', last_update = 5\<rparr>"
  by (simp add: logged_in_state_def cam1_state_eq)

text \<open>
  C4. The snapshot fetch, given a device id, host and token, tries the two URL templates in
  order with the cookie made from the token. If position \<open>i\<close> is the first whose fetch
  succeeds with more than \<open>100\<close> bytes (every earlier one raised or returned at most
  \<open>100\<close> bytes), the response is that payload: status \<open>200\<close>, content type
  \<^verbatim>\<open>image/jpeg\<close>, the bytes as body. If no URL is plausible, the response has status
  \<open>500\<close>, content type \<^verbatim>\<open>application/json\<close> and the body
  \<^verbatim>\<open>{"error": "Could not fetch snapshot"}\<close>, not binary data. In particular, when the first
  URL yields \<open>10\<close> bytes and the second \<open>50000\<close>, the second payload is returned.
  \<^verbatim>\<open>GET /device/{id}/snapshot\<close> answers with this fetch, made with the host and token of
  the state, when the id can stand in the path and has a non-empty record in the store.
\<close>

theorem snapshot_first_plausible_url:
  "(first_plausible f (''login_user_token='' @ fstr t) (snapshot_urls h t d) i data \<longrightarrow>
      fetch_snapshot f h t d = Response 200 ''image/jpeg'' (BytesBody data)) \<and>
   (list_all (\<lambda>u. \<not> plausible (f u (''login_user_token='' @ fstr t))) (snapshot_urls h t d) \<longrightarrow>
      fetch_snapshot f h t d =
        Response 500 ''application/json''
          (JsonBody (JDict [(''error'', JStr ''Could not fetch snapshot'')]))) \<and>
   (f (snapshot_urls h t d ! 0) (''login_user_token='' @ fstr t) = Inr small \<and>
    length small = 10 \<and>
    f (snapshot_urls h t d ! 1) (''login_user_token='' @ fstr t) = Inr big \<and>
    length big = 50000 \<longrightarrow>
      fetch_snapshot f h t d = Response 200 ''image/jpeg'' (BytesBody big)) \<and>
   (path_safe_id d \<and> map_of (devices s) d = Some r \<and> r \<noteq> [] \<longrightarrow>
      do_GET f s (''/device/'' @ d @ ''/snapshot'') = Inr (fetch_snapshot f (host s) (token s) d))"
proof -
  let ?ck = "''login_user_token='' @ fstr t"
  have a: "fetch_snapshot f h t d = Response 200 ''image/jpeg'' (BytesBody data)"
    if "first_plausible f ?ck (snapshot_urls h t d) i data"
    using that unfolding fetch_snapshot_def by (rule try_snapshot_urls_first)
  have b: "fetch_snapshot f h t d =
             Response 500 ''application/json''
               (JsonBody (JDict [(''error'', JStr ''Could not fetch snapshot'')]))"
    if "list_all (\<lambda>u. \<not> plausible (f u ?ck)) (snapshot_urls h t d)"
    using that unfolding fetch_snapshot_def by (rule try_snapshot_urls_none)
  have c: "fetch_snapshot f h t d = Response 200 ''image/jpeg'' (BytesBody big)"
    if "f (snapshot_urls h t d ! 0) ?ck = Inr small" "length small = 10"
       "f (snapshot_urls h t d ! 1) ?ck = Inr big" "length big = 50000"
  proof -
    have "first_plausible f ?ck (snapshot_urls h t d) 1 big"
      using that by (simp add: first_plausible_def snapshot_urls_def plausible_def)
    then show ?thesis
      unfolding fetch_snapshot_def by (rule try_snapshot_urls_first)
  qed
  have e: "do_GET f s (''/device/'' @ d @ ''/snapshot'') =
             Inr (fetch_snapshot f (host s) (token s) d)"
    if "path_safe_id d" "map_of (devices s) d = Some r" "r \<noteq> []"
    using that do_GET_snapshot_path [of d f s] by simp
  show ?thesis
    using a b c e by blast
qed

theorem snapshot_first_plausible_url_witness:
  "snapshot_urls (Some ''https://hub'') (Some ''tok'') ''cam1'' =
     [''https://hub/endpoint/@scrypted/core/api/tok/device/cam1/Camera.getSnapshot'',
      ''https://hub/endpoint/@scrypted/snapshot/public/cam1''] \<and>
   first_plausible scenario_fetch ''login_user_token=tok''
     (snapshot_urls (Some ''https://hub'') (Some ''tok'') ''cam1'') 1 (replicate 50000 0) \<and>
   scenario_fetch (snapshot_urls (Some ''https://hub'') (Some ''tok'') ''cam1'' ! 0)
     ''login_user_token=tok'' = Inr (replicate 10 0) \<and>
   length (replicate 10 (0 :: byte)) = 10 \<and> length (replicate 50000 (0 :: byte)) = 50000 \<and>
   path_safe_id ''cam1'' \<and>
   fetch_snapshot scenario_fetch (Some ''https://hub'') (Some ''tok'') ''cam1''
     = Response 200 ''image/jpeg'' (BytesBody (replicate 50000 0)) \<and>
   do_GET scenario_fetch logged_in_state ''/device/cam1/snapshot''
     = Inr (Response 200 ''image/jpeg'' (BytesBody (replicate 50000 0))) \<and>
   fetch_snapshot no_fetch (Some ''https://hub'') (Some ''tok'') ''cam1''
     = Response 500 ''application/json''
         (JsonBody (JDict [(''error'', JStr ''Could not fetch snapshot'')])) \<and>
   do_GET no_fetch logged_in_state ''/device/cam1/snapshot''
     = Inr (Response 500 ''application/json''
              (JsonBody (JDict [(''error'', JStr ''Could not fetch snapshot'')])))"
proof -
  let ?h = "Some ''https://hub''" and ?t = "Some ''tok''"
  have u0: "scenario_fetch (snapshot_urls ?h ?t ''cam1'' ! 0) ''login_user_token=tok''
              = Inr (replicate 10 0)"
    by (simp add: scenario_fetch_def snapshot_urls_def fstr_def)
  have u1: "scenario_fetch (snapshot_urls ?h ?t ''cam1'' ! 1) ''login_user_token=tok''
              = Inr (replicate 50000 0)"
    by (simp add: scenario_fetch_def snapshot_urls_def fstr_def)
  have fp: "first_plausible scenario_fetch ''login_user_token=tok''
              (snapshot_urls ?h ?t ''cam1'') 1 (replicate 50000 0)"
    using u0 u1 by (simp add: first_plausible_def plausible_def snapshot_urls_def)
  have urls: "snapshot_urls ?h ?t ''cam1'' =
     [''https://hub/endpoint/@scrypted/core/api/tok/device/cam1/Camera.getSnapshot'',
      ''https://hub/endpoint/@scrypted/snapshot/public/cam1'']"
    by (simp add: snapshot_urls_def fstr_def)
  have none: "list_all (\<lambda>u. \<not> plausible (no_fetch u ''login_user_token=tok''))
                (snapshot_urls ?h ?t ''cam1'')"
    by (simp add: snapshot_urls_def plausible_def no_fetch_def)
  have dev: "path_safe_id ''cam1''"
    "map_of (devices logged_in_state) ''cam1'' =
       Some [(''interfaces'', JList [JStr ''Camera'']), (''on'', JBool True),
             (''id'', JStr ''cam1'')]"
    "host logged_in_state = ?h" "token logged_in_state = ?t"
    by (simp_all add: logged_in_state_eq path_safe_id_def py_isspace_def)
  show ?thesis
    using fp u0 u1 none dev urls
      snapshot_first_plausible_url
        [of scenario_fetch ?t ?h "''cam1''" 1 "replicate 50000 0" "replicate 10 0"
            "replicate 50000 0" logged_in_state
            "[(''interfaces'', JList [JStr ''Camera'']), (''on'', JBool True),
              (''id'', JStr ''cam1'')]"]
      snapshot_first_plausible_url
        [of no_fetch ?t ?h "''cam1''" 0 "[]" "[]" "[]" logged_in_state
            "[(''interfaces'', JList [JStr ''Camera'']), (''on'', JBool True),
              (''id'', JStr ''cam1'')]"]
    by (simp add: fstr_def)
qed

section \<open>Properties of the process\<close>

subsection \<open>A failed login\<close>

lemma login_error_payload:
  "map_of kvs ''error'' = Some m \<Longrightarrow>
   login_to_scrypted (HttpOk (Some (JDict kvs))) = Inl (PyException (MsgJson m))"
proof -
  assume a: "map_of kvs ''error'' = Some m"
  then have "''error'' \<in> fst ` set kvs"
    by (metis domI dom_map_of_conv_image_fst)
  with a show ?thesis
    by (simp add: login_to_scrypted_def py_getitem_def)
qed

lemma login_http_error: "\<exists>e. login_to_scrypted (HttpError code body parsed) = Inl e"
  by (cases parsed) (auto simp: login_to_scrypted_def split: json.splits)

text \<open>
  C5, as the claim states it, fails in the default full mode: \<^verbatim>\<open>main\<close> starts the HTTP
  server thread before \<^verbatim>\<open>connect_socketio\<close> attempts the login. With the reply
  \<^verbatim>\<open>{"error": "bad credentials"}\<close> the login fails and the listener thread has been started.
\<close>

theorem failed_login_listener_started:
  "login_to_scrypted bad_credentials = Inl (PyException (MsgJson (JStr ''bad credentials''))) \<and>
   listener_started (main Full 18765 True ''https://hub'' bad_credentials idle_script)"
  by (simp add: bad_credentials_def login_to_scrypted_def py_getitem_def main_def
        connect_socketio_def print_stderr_def listener_started_def started_def)

text \<open>
  C5, amended. An error payload and every \<^verbatim>\<open>HTTPError\<close> make the login raise. When the
  login raises, the process reports the error and exits: in test mode it prints the error,
  exits with status \<open>1\<close> and never starts the HTTP listener; in full mode the listener
  thread was started before the login, \<^verbatim>\<open>connect_socketio\<close> prints the failure and
  returns, the state is untouched, and the process ends with status \<open>0\<close>.
\<close>

theorem failed_login_ends_process:
  "(login_to_scrypted reply = Inl e \<longrightarrow>
      main Test port has_socketio h reply script = ((scrypted_state, [StdoutError e]), Exited 1) \<and>
      \<not> listener_started (main Test port has_socketio h reply script) \<and>
      main Full port has_socketio h reply script =
        ((scrypted_state, [StartHttpThread port, Stderr (LoggingIn h), Stderr (LoginFailed e)]),
         Exited 0)) \<and>
   (map_of kvs ''error'' = Some m \<longrightarrow>
      login_to_scrypted (HttpOk (Some (JDict kvs))) = Inl (PyException (MsgJson m))) \<and>
   (\<exists>e'. login_to_scrypted (HttpError code body parsed) = Inl e')"
  using login_http_error [of code body parsed]
  by (simp add: login_error_payload)
     (simp add: main_def connect_socketio_def print_stderr_def listener_started_def started_def)

theorem failed_login_ends_process_witness:
  "login_to_scrypted bad_credentials = Inl (PyException (MsgJson (JStr ''bad credentials''))) \<and>
   main Test 18765 True ''https://hub'' bad_credentials idle_script =
     ((scrypted_state, [StdoutError (PyException (MsgJson (JStr ''bad credentials'')))]),
      Exited 1) \<and>
   main Full 18765 True ''https://hub'' bad_credentials idle_script =
     ((scrypted_state,
       [StartHttpThread 18765, Stderr (LoggingIn ''https://hub''),
        Stderr (LoginFailed (PyException (MsgJson (JStr ''bad credentials''))))]),
      Exited 0)"
proof -
  have k: "map_of [(''error'', JStr ''bad credentials'')] ''error'' = Some (JStr ''bad credentials'')"
    by simp
  have l: "login_to_scrypted bad_credentials
             = Inl (PyException (MsgJson (JStr ''bad credentials'')))"
    by (simp add: bad_credentials_def login_to_scrypted_def py_getitem_def)
  show ?thesis
    using k l
      failed_login_ends_process
        [of bad_credentials "PyException (MsgJson (JStr ''bad credentials''))" 18765 True
            "''https://hub''" idle_script "[(''error'', JStr ''bad credentials'')]"
            "JStr ''bad credentials''" 401 "[]" None]
    by simp
qed

subsection \<open>A failure of the Socket.IO client\<close>

lemma raises_Awaited: "raises (Awaited events raised) \<longleftrightarrow> raised \<noteq> None"
  by (simp add: raises_def)

lemma ping_raises_Tick:
  "ping_raises (Tick sleep_events sio_connected ping) \<longleftrightarrow> sio_connected \<and> raises ping"
  by (simp add: ping_raises_def)

lemma keepalive_raises: "snd (keepalive p ts) \<noteq> None \<longleftrightarrow> list_ex ping_raises ts"
proof (induction ts arbitrary: p)
  case Nil
  then show ?case by simp
next
  case (Cons t ts)
  show ?case
  proof (cases t)
    case (Tick sleep_events sio_connected ping)
    show ?thesis
    proof (cases ping)
      case (Awaited events raised)
      with Tick Cons.IH show ?thesis
        by (cases raised) (simp_all add: ping_raises_Tick raises_Awaited Let_def)
    qed
  qed
qed

text \<open>
  After a successful login with the client library present, the process has exited exactly
  when an awaited call of the client has raised.
\<close>

lemma main_full_status:
  assumes "login_to_scrypted reply = Inr r" and "get_token r = Inr tok"
  shows "snd (main Full port True h reply script) =
           (if script_raises script then Exited 0 else Alive)"
proof -
  obtain ev1 r1 where c1: "connect_call script = Awaited ev1 r1"
    by (cases "connect_call script")
  obtain ev2 r2 where c2: "get_state_call script = Awaited ev2 r2"
    by (cases "get_state_call script")
  let ?p1 = "print_stderr (scrypted_state, [StartHttpThread port]) (LoggingIn h)"
  let ?p2 = "print_stderr (fst ?p1\<lparr>token := Some tok, host := Some h\<rparr>, snd ?p1) LoginSuccessful"
  let ?p3 = "print_stderr ?p2 (Connecting (h @ ''/endpoint/@scrypted/core/engine.io/api/''))"
  let ?p5 = "foldl dispatch (foldl dispatch ?p3 ev1) ev2"
  obtain p6 r3 where k: "keepalive ?p5 (ticks script) = (p6, r3)"
    by (cases "keepalive ?p5 (ticks script)")
  have r3: "r3 \<noteq> None \<longleftrightarrow> list_ex ping_raises (ticks script)"
    using keepalive_raises [of ?p5 "ticks script"] k by simp
  show ?thesis
  proof (cases r1)
    case (Some e)
    then show ?thesis
      using assms c1
      by (simp add: main_def connect_socketio_def script_raises_def raises_Awaited Let_def)
  next
    case n1: None
    show ?thesis
    proof (cases r2)
      case (Some e)
      then show ?thesis
        using assms c1 c2 n1
        by (simp add: main_def connect_socketio_def script_raises_def raises_Awaited Let_def)
    next
      case n2: None
      show ?thesis
      proof (cases r3)
        case (Some e)
        then show ?thesis
          using assms c1 c2 n1 n2 k r3
          by (simp add: main_def connect_socketio_def script_raises_def raises_Awaited Let_def)
      next
        case None
        then show ?thesis
          using assms c1 c2 n1 n2 k r3
          by (simp add: main_def connect_socketio_def script_raises_def raises_Awaited Let_def)
      qed
    qed
  qed
qed

text \<open>
  With the client library present and as long as no awaited call raises, the process stays
  in its keep-alive loop, the listener started, and its state is the result of handling the
  dispatched events in order.
\<close>

lemma fst_print_stderr: "fst (print_stderr p l) = fst p"
  by (simp add: print_stderr_def)

lemma fst_foldl_dispatch: "fst (foldl dispatch p events) = run_events (fst p) events"
  unfolding run_events_def
  by (induction events arbitrary: p) (simp_all add: dispatch_def)

lemma started_print_stderr: "started p \<Longrightarrow> started (print_stderr p l)"
  by (simp add: started_def print_stderr_def)

lemma started_foldl_dispatch: "started p \<Longrightarrow> started (foldl dispatch p events)"
  by (induction events arbitrary: p) (simp_all add: started_def dispatch_def)

lemma run_events_append: "run_events s (xs @ ys) = run_events (run_events s xs) ys"
  by (simp add: run_events_def)

lemma keepalive_quiet:
  "\<not> list_ex ping_raises ts \<Longrightarrow>
   snd (keepalive p ts) = None \<and>
   fst (fst (keepalive p ts)) = run_events (fst p) (concat (map tick_events ts)) \<and>
   (started p \<longrightarrow> started (fst (keepalive p ts)))"
proof (induction ts arbitrary: p)
  case Nil
  then show ?case by (simp add: run_events_def)
next
  case (Cons t ts)
  obtain sleep_events sio_connected events raised
    where t: "t = Tick sleep_events sio_connected (Awaited events raised)"
    by (metis tick.exhaust awaited.exhaust)
  from Cons.prems have q: "\<not> list_ex ping_raises ts" and r: "sio_connected \<longrightarrow> raised = None"
    by (simp_all add: t ping_raises_Tick raises_Awaited)
  show ?case
  proof (cases sio_connected)
    case True
    with r have "raised = None" by simp
    with True t show ?thesis
      using Cons.IH [OF q, of "foldl dispatch (foldl dispatch p sleep_events) events"]
      by (simp add: fst_foldl_dispatch run_events_append started_foldl_dispatch)
  next
    case False
    with t show ?thesis
      using Cons.IH [OF q, of "foldl dispatch p sleep_events"]
      by (simp add: fst_foldl_dispatch run_events_append started_foldl_dispatch)
  qed
qed

lemma main_full_quiet:
  assumes "login_to_scrypted reply = Inr r" and "get_token r = Inr tok"
    and "\<not> script_raises script"
  shows "snd (main Full port True h reply script) = Alive"
    and "listener_started (main Full port True h reply script)"
    and "fst (fst (main Full port True h reply script)) =
           run_events (scrypted_state\<lparr>token := Some tok, host := Some h\<rparr>) (script_events script)"
proof -
  obtain ev1 r1 where c1: "connect_call script = Awaited ev1 r1"
    by (cases "connect_call script")
  obtain ev2 r2 where c2: "get_state_call script = Awaited ev2 r2"
    by (cases "get_state_call script")
  from assms(3) c1 c2 have n: "r1 = None" "r2 = None" "\<not> list_ex ping_raises (ticks script)"
    by (simp_all add: script_raises_def raises_Awaited)
  let ?p1 = "print_stderr (scrypted_state, [StartHttpThread port]) (LoggingIn h)"
  let ?p2 = "print_stderr (fst ?p1\<lparr>token := Some tok, host := Some h\<rparr>, snd ?p1) LoginSuccessful"
  let ?p3 = "print_stderr ?p2 (Connecting (h @ ''/endpoint/@scrypted/core/engine.io/api/''))"
  let ?p5 = "foldl dispatch (foldl dispatch ?p3 ev1) ev2"
  obtain p6 r3 where k: "keepalive ?p5 (ticks script) = (p6, r3)"
    by (cases "keepalive ?p5 (ticks script)")
  have s5: "started ?p5"
    by (intro started_foldl_dispatch started_print_stderr) (simp add: started_def print_stderr_def)
  have f5: "fst ?p5 = run_events (scrypted_state\<lparr>token := Some tok, host := Some h\<rparr>) (ev1 @ ev2)"
    by (simp add: fst_foldl_dispatch fst_print_stderr run_events_append)
  from keepalive_quiet [OF n(3), of ?p5] k s5 f5
  have q: "r3 = None" "started p6"
    "fst p6 = run_events (scrypted_state\<lparr>token := Some tok, host := Some h\<rparr>)
                (ev1 @ ev2 @ concat (map tick_events (ticks script)))"
    by (simp_all add: run_events_append)
  have m: "main Full port True h reply script = (p6, Alive)"
    using assms(1,2) c1 c2 n(1,2) k q(1)
    by (simp add: main_def connect_socketio_def Let_def)
  show "snd (main Full port True h reply script) = Alive"
    by (simp add: m)
  show "listener_started (main Full port True h reply script)"
    using q(2) by (simp add: m listener_started_def started_def)
  show "fst (fst (main Full port True h reply script)) =
           run_events (scrypted_state\<lparr>token := Some tok, host := Some h\<rparr>) (script_events script)"
    using q(3) by (simp add: m script_events_def c1 c2)
qed

text \<open>
  Without the Socket.IO client library the function announces a limited mode, sets the
  connectivity flag and returns: the process ends at once, with status \<open>0\<close>.
\<close>

lemma limited_mode_exits:
  assumes "login_to_scrypted reply = Inr r" and "get_token r = Inr tok"
  shows "main Full port False h reply script =
           ((scrypted_state\<lparr>token := Some tok, host := Some h, connected := True\<rparr>,
             [StartHttpThread port, Stderr (LoggingIn h), Stderr LoginSuccessful,
              Stderr LimitedMode]),
            Exited 0)"
  using assms
  by (simp add: main_def connect_socketio_def print_stderr_def scrypted_state_def)

text \<open>
  C6. The code at a failing input. After a successful login the hub refuses the Socket.IO
  connection: \<^verbatim>\<open>sio.connect\<close> raises, the exception is caught and printed,
  \<^verbatim>\<open>connect_socketio\<close> returns, and the process exits with status \<open>0\<close>, the HTTP
  listener with it, instead of going on to serve the cached store. When the connection is up,
  the snapshot of the scenario has arrived and a keep-alive ping raises, the process exits in
  the same way, with the connectivity flag still true.
\<close>

theorem socketio_failure_exits:
  "main Full 18765 True ''https://hub'' ok_reply refused_script =
     ((\<lparr>devices = [], connected = False, token = Some ''tok'', host = Some ''https://hub'',
        last_update = 0\<rparr>,
       [StartHttpThread 18765, Stderr (LoggingIn ''https://hub''), Stderr LoginSuccessful,
        Stderr (Connecting ''https://hub/endpoint/@scrypted/core/engine.io/api/''),
        Stderr (SocketIOError (OtherError ''connection refused''))]),
      Exited 0) \<and>
   main Full 18765 True ''https://hub'' ok_reply ping_fails_script =
     ((\<lparr>devices = [(''cam1'', [(''interfaces'', JList [JStr ''Camera'']), (''on'', JBool True),
                                (''id'', JStr ''cam1'')])],
        connected = True, token = Some ''tok'', host = Some ''https://hub'',
        last_update = 5\<rparr>,
       [StartHttpThread 18765, Stderr (LoggingIn ''https://hub''), Stderr LoginSuccessful,
        Stderr (Connecting ''https://hub/endpoint/@scrypted/core/engine.io/api/''),
        Stderr SocketIOConnected, Stderr (UpdatedDevices 1),
        Stderr (SocketIOError (OtherError ''connection lost''))]),
      Exited 0)"
  by (simp add: main_def connect_socketio_def ok_reply_def ping_fails_script_def
        refused_script_def login_to_scrypted_def get_token_def print_stderr_def dispatch_def
        connect_def on_system_state_def cam1_snapshot_def upsert_device_def scrypted_state_def)

end
